theory Spec2Isabelle
  imports Main "HOL-Library.AList"
begin

section \<open>QlogConnection: a single qlog trace and its category/type index\<close>

text \<open>
  This theory embeds \<^verbatim>\<open>visualizations/src/data/Connection.ts\<close>. A
  \<^verbatim>\<open>QlogConnection\<close> is a mutable object that registers itself with its parent
  group, shares its event parser with its clones and is mutated through its methods, so
  the objects live in an explicit store: connections, groups and parsers are addressed by
  references, and every method takes the store and the address of \<^verbatim>\<open>this\<close> and
  returns the store after the call together with what the call returned or threw.
\<close>

subsection \<open>JavaScript values\<close>

text \<open>
  The fields of a raw event are typed \<^verbatim>\<open>any\<close>. The values below are the ones a
  qlog file can hold, together with \<^verbatim>\<open>undefined\<close>, which \<^verbatim>\<open>any\<close> admits
  and on which \<^verbatim>\<open>JSON.stringify\<close> behaves differently from every JSON value.
  Numbers are integers here: no operation of this class computes with them.
\<close>

datatype jsval =
    JUndefined
  | JNull
  | JBool bool
  | JNumber int
  | JString string
  | JArray "jsval list"
  | JObject "(string \<times> jsval) list"

type_synonym js_object = "(string \<times> jsval) list"

text \<open>\<^verbatim>\<open>IQlogRawEvent\<close> is \<^verbatim>\<open>Array<any>\<close>: a flat, positional record.\<close>

type_synonym raw_event = "jsval list"

datatype js_error = TypeError | SyntaxError

text \<open>
  \<^verbatim>\<open>JSON.parse(JSON.stringify(v))\<close>, the deep copy used by \<^verbatim>\<open>clone\<close>.
  \<^verbatim>\<open>JSON.stringify\<close> writes an \<^verbatim>\<open>undefined\<close> array element as
  \<^verbatim>\<open>null\<close> and leaves out an object property whose value is
  \<^verbatim>\<open>undefined\<close>. At top level \<^verbatim>\<open>JSON.stringify(undefined)\<close> is
  \<^verbatim>\<open>undefined\<close> itself, on which \<^verbatim>\<open>JSON.parse\<close> throws a
  \<^verbatim>\<open>SyntaxError\<close>: that case is a branch of \<^verbatim>\<open>clone\<close> below, and
  \<open>json_copy\<close> is the round trip of a defined value.
\<close>

fun json_copy :: "jsval \<Rightarrow> jsval" where
  "json_copy (JArray xs) =
     JArray (map (\<lambda>x. if x = JUndefined then JNull else json_copy x) xs)"
| "json_copy (JObject ps) =
     JObject (map (\<lambda>p. (fst p, json_copy (snd p))) (filter (\<lambda>p. snd p \<noteq> JUndefined) ps))"
| "json_copy v = v"

text \<open>The same round trip on the statically typed fields of a connection.\<close>

definition json_copy_object :: "js_object \<Rightarrow> js_object" where
  "json_copy_object ps = (case json_copy (JObject ps) of JObject qs \<Rightarrow> qs | _ \<Rightarrow> [])"

definition json_copy_event :: "raw_event \<Rightarrow> raw_event" where
  "json_copy_event e = (case json_copy (JArray e) of JArray e' \<Rightarrow> e' | _ \<Rightarrow> [])"

definition json_copy_events :: "raw_event list \<Rightarrow> raw_event list" where
  "json_copy_events evs = map json_copy_event evs"

text \<open>A value that \<^verbatim>\<open>JSON.parse\<close> can produce holds no \<^verbatim>\<open>undefined\<close>.\<close>

fun is_json :: "jsval \<Rightarrow> bool" where
  "is_json JUndefined = False"
| "is_json (JArray xs) = list_all is_json xs"
| "is_json (JObject ps) = list_all (\<lambda>p. is_json (snd p)) ps"
| "is_json v = True"

subsection \<open>The store\<close>

type_synonym cref = nat \<comment> \<open>address of a \<^verbatim>\<open>QlogConnection\<close>\<close>
type_synonym gref = nat \<comment> \<open>address of a \<^verbatim>\<open>QlogConnectionGroup\<close>\<close>
type_synonym pref = nat \<comment> \<open>address of an \<^verbatim>\<open>IQlogEventParser\<close>\<close>

text \<open>
  Modelled from the spec: the parsed view returned by \<^verbatim>\<open>IQlogEventParser.load\<close>
  (declared in \<^verbatim>\<open>QlogEventParser\<close>, which is not part of the sources at hand). It
  exposes at least a timestamp, a category, a name and opaque data; the connection reads
  \<^verbatim>\<open>category\<close> and \<^verbatim>\<open>name\<close>.
\<close>

record parsed_event =
  timestamp :: jsval
  category :: string
  name :: string
  data :: jsval

text \<open>
  Modelled from the spec: an \<^verbatim>\<open>IQlogEventParser\<close> object. Its \<^verbatim>\<open>load\<close> is
  deterministic in the raw event; the parser object is a collaborator, so the store keeps
  the arguments of every \<^verbatim>\<open>load\<close> and \<^verbatim>\<open>init\<close> call it received, in order.
\<close>

record parser_obj =
  load_fn :: "raw_event \<Rightarrow> parsed_event"
  load_calls :: "raw_event list"
  init_calls :: "cref list"

text \<open>
  A JavaScript \<^verbatim>\<open>Map\<close> with string keys: an association list in insertion order.
  \<^verbatim>\<open>set\<close> replaces the value of a key that is present and appends a new key
  otherwise, \<^verbatim>\<open>get\<close> of an absent key is \<^verbatim>\<open>undefined\<close> (\<open>None\<close>).
\<close>

type_synonym 'v js_map = "(string \<times> 'v) list"

definition Map_size :: "'v js_map \<Rightarrow> nat" where
  "Map_size m = length m"

definition Map_has :: "'v js_map \<Rightarrow> string \<Rightarrow> bool" where
  "Map_has m k = (map_of m k \<noteq> None)"

definition Map_get :: "'v js_map \<Rightarrow> string \<Rightarrow> 'v option" where
  "Map_get m k = map_of m k"

definition Map_set :: "'v js_map \<Rightarrow> string \<Rightarrow> 'v \<Rightarrow> 'v js_map" where
  "Map_set m k v = AList.update k v m"

text \<open>
  The fields of the class. The arrays and maps of a connection are stored by value: the
  methods of the class replace the \<^verbatim>\<open>events\<close> array but never write into it,
  and the dictionaries and buckets of the index are made by the build and belong to one
  table. \<^verbatim>\<open>vantagePoint\<close> is declared without an initialiser
  and the constructor does not assign it: it is \<^verbatim>\<open>undefined\<close> (\<open>None\<close>) until
  a caller assigns it. The same holds for the private \<^verbatim>\<open>eventParser\<close>. The
  \<^verbatim>\<open>_isVue\<close> marker is set on every array, map and parser the object stores and
  is read by nothing in this class, so it is constant and left out.
\<close>

record QlogConnection =
  parent :: gref
  title :: string
  description :: string
  eventFieldNames :: "string list"
  commonFields :: js_object
  configuration :: js_object
  vantagePoint :: "js_object option"
  events :: "raw_event list"
  lookupTable :: "raw_event list js_map js_map"
  eventParser :: "pref option"

text \<open>
  The store. \<open>allocated\<close> counts the connections constructed so far; the next
  \<^verbatim>\<open>new QlogConnection\<close> gets that address. A group is its list of connections.
\<close>

record store =
  connections :: "cref \<Rightarrow> QlogConnection"
  allocated :: nat
  groups :: "gref \<Rightarrow> cref list"
  parsers :: "pref \<Rightarrow> parser_obj"

definition upd_connection :: "store \<Rightarrow> cref \<Rightarrow> (QlogConnection \<Rightarrow> QlogConnection) \<Rightarrow> store" where
  "upd_connection h r f = h\<lparr>connections := (connections h)(r := f (connections h r))\<rparr>"

subsection \<open>Collaborators\<close>

text \<open>
  Modelled from the spec: \<^verbatim>\<open>QlogConnectionGroup.addConnection\<close> (the class is not
  part of the sources at hand). It is the registration side effect of constructing a
  trace: the group records the new trace in its list of connections.
\<close>

definition addConnection :: "store \<Rightarrow> gref \<Rightarrow> cref \<Rightarrow> store" where
  "addConnection h g r = h\<lparr>groups := (groups h)(g := groups h g @ [r])\<rparr>"

text \<open>\<^verbatim>\<open>parser.init(connection)\<close> and \<^verbatim>\<open>parser.load(evt)\<close>, recorded.\<close>

definition parser_init :: "store \<Rightarrow> pref \<Rightarrow> cref \<Rightarrow> store" where
  "parser_init h p r =
     h\<lparr>parsers := (parsers h)(p := (parsers h p)\<lparr>init_calls := init_calls (parsers h p) @ [r]\<rparr>)\<rparr>"

definition parser_load :: "store \<Rightarrow> pref \<Rightarrow> raw_event \<Rightarrow> store \<times> parsed_event" where
  "parser_load h p evt =
     (h\<lparr>parsers := (parsers h)(p := (parsers h p)\<lparr>load_calls := load_calls (parsers h p) @ [evt]\<rparr>)\<rparr>,
      load_fn (parsers h p) evt)"

subsection \<open>The methods of QlogConnection\<close>

text \<open>
  The constructor: the new object is registered with its parent group. The source calls
  \<^verbatim>\<open>addConnection\<close> before it makes the empty \<^verbatim>\<open>lookupTable\<close>; the
  registration does not read the object, so the order does not show.
\<close>

definition new_QlogConnection :: "store \<Rightarrow> gref \<Rightarrow> store \<times> cref" where
  "new_QlogConnection h g =
     (let this = allocated h;
          obj = \<lparr>parent = g, title = ''NewConnection'', description = '''',
                 eventFieldNames = [], commonFields = [],
                 configuration = [(''time_offset'', JString ''0''), (''time_units'', JString ''ms''),
                                  (''original_uris'', JArray [])],
                 vantagePoint = None, events = [], lookupTable = [], eventParser = None\<rparr>;
          h1 = h\<lparr>connections := (connections h)(this := obj), allocated := Suc this\<rparr>
      in (addConnection h1 g this, this))"

text \<open>
  \<^verbatim>\<open>clone\<close>: the assignments run in the order of the source, and the round trip of
  \<^verbatim>\<open>vantagePoint\<close> throws when the field was never assigned. The object made by the
  constructor is in the store, and in its parent group, also then.
\<close>

definition clone :: "store \<Rightarrow> cref \<Rightarrow> store \<times> (js_error + cref)" where
  "clone h this =
     (let (h1, output) = new_QlogConnection h (parent (connections h this));
          src = connections h1 this;
          h2 = upd_connection h1 output (\<lambda>c. c\<lparr>title := title src, description := description src,
                 eventFieldNames := eventFieldNames src,
                 commonFields := json_copy_object (commonFields src),
                 configuration := json_copy_object (configuration src)\<rparr>)
      in case vantagePoint src of
           None \<Rightarrow> (h2, Inl SyntaxError)
         | Some vp \<Rightarrow>
             (upd_connection h2 output (\<lambda>c. c\<lparr>vantagePoint := Some (json_copy_object vp),
                 events := json_copy_events (events src),
                 eventParser := eventParser src\<rparr>),
              Inr output))"

definition setEventParser :: "store \<Rightarrow> cref \<Rightarrow> pref \<Rightarrow> store" where
  "setEventParser h this parser =
     parser_init (upd_connection h this (\<lambda>c. c\<lparr>eventParser := Some parser\<rparr>)) parser this"

definition getEventParser :: "store \<Rightarrow> cref \<Rightarrow> pref option" where
  "getEventParser h this = eventParser (connections h this)"

text \<open>\<^verbatim>\<open>this.eventParser.load(evt)\<close>: a \<^verbatim>\<open>TypeError\<close> when no parser is attached.\<close>

definition parseEvent :: "store \<Rightarrow> cref \<Rightarrow> raw_event \<Rightarrow> store \<times> (js_error + parsed_event)" where
  "parseEvent h this evt =
     (case eventParser (connections h this) of
        None \<Rightarrow> (h, Inl TypeError)
      | Some p \<Rightarrow> (let (h', view) = parser_load h p evt in (h', Inr view)))"

definition setEvents :: "store \<Rightarrow> cref \<Rightarrow> raw_event list \<Rightarrow> store" where
  "setEvents h this evs = upd_connection h this (\<lambda>c. c\<lparr>events := evs\<rparr>)"

definition getEvents :: "store \<Rightarrow> cref \<Rightarrow> raw_event list" where
  "getEvents h this = events (connections h this)"

text \<open>
  Lines 115 to 124, the body of the loop after the two parses: make sure the category
  has a dictionary and the dictionary a bucket for the type, then push the raw event.
  The source asserts with \<^verbatim>\<open>!\<close> that both \<^verbatim>\<open>get\<close> calls find their key; a
  call on \<^verbatim>\<open>undefined\<close> would be a \<^verbatim>\<open>TypeError\<close>.
\<close>

definition insert_event ::
  "raw_event list js_map js_map \<Rightarrow> string \<Rightarrow> string \<Rightarrow> raw_event \<Rightarrow>
     js_error + raw_event list js_map js_map" where
  "insert_event tbl cat eventType evt =
     (let tbl1 = (if \<not> Map_has tbl cat then Map_set tbl cat [] else tbl)
      in case Map_get tbl1 cat of
           None \<Rightarrow> Inl TypeError
         | Some categoryDictionary \<Rightarrow>
             (let dict1 = (if \<not> Map_has categoryDictionary eventType
                           then Map_set categoryDictionary eventType [] else categoryDictionary)
              in case Map_get dict1 eventType of
                   None \<Rightarrow> Inl TypeError
                 | Some bucket \<Rightarrow> Inr (Map_set tbl1 cat (Map_set dict1 eventType (bucket @ [evt])))))"

text \<open>The loop of \<^verbatim>\<open>setupLookupTable\<close> over the events still to visit.\<close>

fun index_events :: "store \<Rightarrow> cref \<Rightarrow> raw_event list \<Rightarrow> store \<times> (js_error + unit)" where
  "index_events h this [] = (h, Inr ())"
| "index_events h this (evt # rest) =
     (case parseEvent h this evt of
        (h1, Inl err) \<Rightarrow> (h1, Inl err)
      | (h1, Inr view1) \<Rightarrow>
          (case parseEvent h1 this evt of
             (h2, Inl err) \<Rightarrow> (h2, Inl err)
           | (h2, Inr view2) \<Rightarrow>
               (case insert_event (lookupTable (connections h2 this)) (category view1) (name view2) evt of
                  Inl err \<Rightarrow> (h2, Inl err)
                | Inr tbl \<Rightarrow>
                    index_events (upd_connection h2 this (\<lambda>c. c\<lparr>lookupTable := tbl\<rparr>)) this rest)))"

definition setupLookupTable :: "store \<Rightarrow> cref \<Rightarrow> store \<times> (js_error + unit)" where
  "setupLookupTable h this =
     (if Map_size (lookupTable (connections h this)) \<noteq> 0 then (h, Inr ())
      else index_events h this (events (connections h this)))"

text \<open>
  \<^verbatim>\<open>lookup\<close>: the source asserts with \<^verbatim>\<open>!\<close> that each \<^verbatim>\<open>get\<close>
  after a successful \<^verbatim>\<open>has\<close> finds its key. The branches for a key that
  \<^verbatim>\<open>get\<close> does not find are there for the assertion; they are never taken.
\<close>

definition lookup :: "store \<Rightarrow> cref \<Rightarrow> string \<Rightarrow> string \<Rightarrow> store \<times> (js_error + raw_event list)" where
  "lookup h this cat eventType =
     (let tbl = lookupTable (connections h this)
      in if Map_has tbl cat then
           (case Map_get tbl cat of
              None \<Rightarrow> (h, Inl TypeError)
            | Some categoryDictionary \<Rightarrow>
                (if Map_has categoryDictionary eventType then
                   (case Map_get categoryDictionary eventType of
                      None \<Rightarrow> (h, Inl TypeError)
                    | Some bucket \<Rightarrow> (h, Inr bucket))
                 else (h, Inr [])))
         else (h, Inr []))"

subsection \<open>Sequences of calls\<close>

text \<open>
  What a client can do with the connections of a store: construct, call a method, or
  assign one of the public fields. A client that catches what a call throws goes on with
  the store the call left behind.
\<close>

datatype public_field =
    Parent gref
  | Title string
  | Description string
  | EventFieldNames "string list"
  | CommonFields js_object
  | Configuration js_object
  | VantagePoint js_object

fun assign :: "public_field \<Rightarrow> QlogConnection \<Rightarrow> QlogConnection" where
  "assign (Parent g) c = c\<lparr>parent := g\<rparr>"
| "assign (Title s) c = c\<lparr>title := s\<rparr>"
| "assign (Description s) c = c\<lparr>description := s\<rparr>"
| "assign (EventFieldNames ns) c = c\<lparr>eventFieldNames := ns\<rparr>"
| "assign (CommonFields v) c = c\<lparr>commonFields := v\<rparr>"
| "assign (Configuration v) c = c\<lparr>configuration := v\<rparr>"
| "assign (VantagePoint v) c = c\<lparr>vantagePoint := Some v\<rparr>"

datatype call =
    New gref
  | Clone cref
  | SetEventParser cref pref
  | GetEventParser cref
  | ParseEvent cref raw_event
  | SetEvents cref "raw_event list"
  | GetEvents cref
  | SetupLookupTable cref
  | Lookup cref string string
  | Assign cref public_field

fun perform :: "store \<Rightarrow> call \<Rightarrow> store" where
  "perform h (New g) = fst (new_QlogConnection h g)"
| "perform h (Clone r) = fst (clone h r)"
| "perform h (SetEventParser r p) = setEventParser h r p"
| "perform h (GetEventParser r) = h"
| "perform h (ParseEvent r evt) = fst (parseEvent h r evt)"
| "perform h (SetEvents r evs) = setEvents h r evs"
| "perform h (GetEvents r) = h"
| "perform h (SetupLookupTable r) = fst (setupLookupTable h r)"
| "perform h (Lookup r cat eventType) = fst (lookup h r cat eventType)"
| "perform h (Assign r f) = upd_connection h r (assign f)"

fun run :: "store \<Rightarrow> call list \<Rightarrow> store" where
  "run h [] = h"
| "run h (c # cs) = run (perform h c) cs"

fun attaches_parser :: "cref \<Rightarrow> call \<Rightarrow> bool" where
  "attaches_parser r (SetEventParser r' p) = (r' = r)"
| "attaches_parser r c = False"

subsection \<open>The index as its clients see it\<close>

text \<open>The bucket of a key pair in a table, empty when either key is absent.\<close>

definition bucket_of :: "raw_event list js_map js_map \<Rightarrow> string \<Rightarrow> string \<Rightarrow> raw_event list" where
  "bucket_of tbl cat eventType =
     (case map_of tbl cat of
        None \<Rightarrow> []
      | Some d \<Rightarrow> (case map_of d eventType of None \<Rightarrow> [] | Some b \<Rightarrow> b))"

text \<open>The index states of the specification: Empty and Built.\<close>

definition index_built :: "store \<Rightarrow> cref \<Rightarrow> bool" where
  "index_built h r = (lookupTable (connections h r) \<noteq> [])"

subsection \<open>A concrete store\<close>

text \<open>
  A parser for the field order \<^verbatim>\<open>[time, category, name, data]\<close> of the
  specification's scenarios, and a store with no connection yet whose parsers all
  use it.
\<close>

definition field_at :: "raw_event \<Rightarrow> nat \<Rightarrow> jsval" where
  "field_at e i = (if i < length e then e ! i else JUndefined)"

definition string_of :: "jsval \<Rightarrow> string" where
  "string_of v = (case v of JString s \<Rightarrow> s | _ \<Rightarrow> [])"

definition positional_load :: "raw_event \<Rightarrow> parsed_event" where
  "positional_load e =
     \<lparr>timestamp = field_at e 0, category = string_of (field_at e 1),
      name = string_of (field_at e 2), data = field_at e 3\<rparr>"

definition blank_connection :: QlogConnection where
  "blank_connection =
     \<lparr>parent = 0, title = [], description = [], eventFieldNames = [], commonFields = [],
      configuration = [], vantagePoint = None, events = [], lookupTable = [], eventParser = None\<rparr>"

definition store0 :: store where
  "store0 =
     \<lparr>connections = (\<lambda>r. blank_connection), allocated = 0, groups = (\<lambda>g. []),
      parsers = (\<lambda>p. \<lparr>load_fn = positional_load, load_calls = [], init_calls = []\<rparr>)\<rparr>"

text \<open>The three events of the specification's end-to-end scenario.\<close>

definition packet_sent :: raw_event where
  "packet_sent = [JNumber 0, JString ''transport'', JString ''packet_sent'', JObject []]"

definition packet_received :: raw_event where
  "packet_received = [JNumber 1, JString ''transport'', JString ''packet_received'', JObject []]"

definition frame_sent :: raw_event where
  "frame_sent = [JNumber 2, JString ''http'', JString ''frame_sent'', JObject []]"

text \<open>A trace with a parser and the three events, its index not built yet.\<close>

definition scenario :: store where
  "scenario = run store0 [New 0, SetEventParser 0 0,
                          SetEvents 0 [packet_sent, packet_received, frame_sent]]"

text \<open>A trace in which two events, at different times, share category and name.\<close>

definition packet_sent_again :: raw_event where
  "packet_sent_again = [JNumber 3, JString ''transport'', JString ''packet_sent'', JObject []]"

definition repeated :: store where
  "repeated = run store0 [New 0, SetEventParser 0 0,
                          SetEvents 0 [packet_sent, frame_sent, packet_sent_again]]"

text \<open>A trace whose index was built from one event before its events were replaced.\<close>

definition stale :: store where
  "stale = run store0 [New 0, SetEventParser 0 0, SetEvents 0 [packet_sent],
                       SetupLookupTable 0, SetEvents 0 [frame_sent]]"

text \<open>The scenario trace with its vantage point assigned and its index built.\<close>

definition built :: store where
  "built = run store0 [New 0, Assign 0 (VantagePoint [(''type'', JString ''client'')]),
                       SetEventParser 0 0,
                       SetEvents 0 [packet_sent, packet_received, frame_sent], SetupLookupTable 0]"

text \<open>A trace as the constructor leaves it.\<close>

definition fresh :: store where
  "fresh = run store0 [New 0]"

text \<open>A trace with an event whose last field is \<^verbatim>\<open>undefined\<close>.\<close>

definition holey :: store where
  "holey = run store0 [New 0, Assign 0 (VantagePoint [(''type'', JString ''client'')]),
                       SetEvents 0 [[JNumber 0, JString ''transport'', JString ''packet_sent'', JUndefined]]]"

text \<open>Calls that attach a parser to trace 0 and clone it; the clone is trace 1.\<close>

definition clone_calls :: "call list" where
  "clone_calls = [New 0, Assign 0 (VantagePoint [(''type'', JString ''client'')]),
                  SetEventParser 0 0, Clone 0]"

subsection \<open>Notation for the proofs\<close>

text \<open>
  The store after parser \<open>p\<close> has received the \<^verbatim>\<open>load\<close> calls \<open>es\<close>, the
  store in which connection \<open>r\<close> has the index \<open>tbl\<close>, and the key pair a
  parser resolves for an event.
\<close>

definition logged :: "store \<Rightarrow> pref \<Rightarrow> raw_event list \<Rightarrow> store" where
  "logged h p es =
     h\<lparr>parsers := (parsers h)(p := (parsers h p)\<lparr>load_calls := load_calls (parsers h p) @ es\<rparr>)\<rparr>"

definition with_table :: "store \<Rightarrow> cref \<Rightarrow> raw_event list js_map js_map \<Rightarrow> store" where
  "with_table h r tbl = upd_connection h r (\<lambda>c. c\<lparr>lookupTable := tbl\<rparr>)"

definition key_of :: "store \<Rightarrow> pref \<Rightarrow> raw_event \<Rightarrow> string \<times> string" where
  "key_of h p e = (category (load_fn (parsers h p) e), name (load_fn (parsers h p) e))"

section \<open>Properties\<close>

lemmas method_defs = new_QlogConnection_def addConnection_def setEvents_def upd_connection_def
  setEventParser_def parser_init_def setupLookupTable_def Map_size_def parseEvent_def
  parser_load_def insert_event_def Map_has_def Map_get_def Map_set_def lookup_def getEvents_def
  getEventParser_def

lemmas fixture_defs = store0_def blank_connection_def packet_sent_def packet_received_def
  frame_sent_def packet_sent_again_def positional_load_def field_at_def string_of_def

lemmas clone_defs = clone_def json_copy_object_def json_copy_events_def json_copy_event_def Let_def

subsection \<open>Maps and the loop body\<close>

lemma map_of_Map_set: "map_of (Map_set m k v) = (map_of m)(k \<mapsto> v)"
  by (simp add: Map_set_def update_conv')

lemma Map_set_nonempty: "Map_set m k v \<noteq> []"
  by (cases m) (simp_all add: Map_set_def)

lemma insert_event_Inr:
  "\<exists>tbl'. insert_event tbl c t e = Inr tbl' \<and> tbl' \<noteq> [] \<and>
     (\<forall>c' t'. bucket_of tbl' c' t' =
        (if c' = c \<and> t' = t then bucket_of tbl c t @ [e] else bucket_of tbl c' t'))"
  by (auto simp: insert_event_def Map_has_def Map_get_def map_of_Map_set Map_set_nonempty bucket_of_def Let_def
      split: option.splits)

subsection \<open>Stores that differ in a log or an index\<close>

lemma logged_Nil [simp]: "logged h p [] = h"
  by (simp add: logged_def)

lemma logged_logged [simp]: "logged (logged h p xs) p ys = logged h p (xs @ ys)"
  by (simp add: logged_def)

lemma connections_logged [simp]: "connections (logged h p xs) = connections h"
  by (simp add: logged_def)

lemma load_fn_logged [simp]: "load_fn (parsers (logged h p xs) q) = load_fn (parsers h q)"
  by (simp add: logged_def)

lemma key_of_logged [simp]: "key_of (logged h p xs) q = key_of h q"
  by (simp add: key_of_def fun_eq_iff)

lemma with_table_same [simp]: "with_table h r (lookupTable (connections h r)) = h"
  by (simp add: with_table_def upd_connection_def)

lemma with_table_twice [simp]: "with_table (with_table h r a) r b = with_table h r b"
  by (simp add: with_table_def upd_connection_def)

lemma logged_with_table: "logged (with_table h r tbl) p xs = with_table (logged h p xs) r tbl"
  by (simp add: with_table_def upd_connection_def logged_def)

lemma connections_with_table [simp]:
  "connections (with_table h r tbl) = (connections h)(r := (connections h r)\<lparr>lookupTable := tbl\<rparr>)"
  by (simp add: with_table_def upd_connection_def)

lemma parsers_with_table [simp]: "parsers (with_table h r tbl) = parsers h"
  by (simp add: with_table_def upd_connection_def)

lemma key_of_with_table [simp]: "key_of (with_table h r tbl) q = key_of h q"
  by (simp add: key_of_def fun_eq_iff)

lemma parseEvent_attached:
  "eventParser (connections h this) = Some p \<Longrightarrow>
     parseEvent h this evt = (logged h p [evt], Inr (load_fn (parsers h p) evt))"
  by (simp add: parseEvent_def parser_load_def logged_def)

lemma parseEvent_unattached:
  "eventParser (connections h this) = None \<Longrightarrow> parseEvent h this evt = (h, Inl TypeError)"
  by (simp add: parseEvent_def)

lemma index_events_attached:
  "eventParser (connections h this) = Some p \<Longrightarrow>
   \<exists>tbl. index_events h this evs =
            (with_table (logged h p (concat (map (\<lambda>e. [e, e]) evs))) this tbl, Inr ()) \<and>
         (evs = [] \<longrightarrow> tbl = lookupTable (connections h this)) \<and>
         (evs \<noteq> [] \<longrightarrow> tbl \<noteq> []) \<and>
         (\<forall>c t. bucket_of tbl c t =
            bucket_of (lookupTable (connections h this)) c t @ filter (\<lambda>e. key_of h p e = (c, t)) evs)"
proof (induction evs arbitrary: h)
  case Nil
  then show ?case by simp
next
  case (Cons evt rest)
  define h2 where "h2 = logged h p [evt, evt]"
  have p2: "parseEvent (logged h p [evt]) this evt = (h2, Inr (load_fn (parsers h p) evt))"
    using Cons.prems by (simp add: parseEvent_attached h2_def)
  obtain tbl1 where ins: "insert_event (lookupTable (connections h this))
       (category (load_fn (parsers h p) evt)) (name (load_fn (parsers h p) evt)) evt = Inr tbl1"
    and ne: "tbl1 \<noteq> []"
    and b1: "\<And>c t. bucket_of tbl1 c t =
        (if c = category (load_fn (parsers h p) evt) \<and> t = name (load_fn (parsers h p) evt)
         then bucket_of (lookupTable (connections h this))
                (category (load_fn (parsers h p) evt)) (name (load_fn (parsers h p) evt)) @ [evt]
         else bucket_of (lookupTable (connections h this)) c t)"
    using insert_event_Inr by blast
  define h3 where "h3 = with_table h2 this tbl1"
  have step: "index_events h this (evt # rest) = index_events h3 this rest"
    using Cons.prems ins p2
    by (simp add: parseEvent_attached h2_def h3_def with_table_def)
  have att: "eventParser (connections h3 this) = Some p"
    using Cons.prems by (simp add: h3_def h2_def)
  from Cons.IH [OF att] obtain tbl where
    r: "index_events h3 this rest =
            (with_table (logged h3 p (concat (map (\<lambda>e. [e, e]) rest))) this tbl, Inr ())"
    and r1: "rest = [] \<longrightarrow> tbl = lookupTable (connections h3 this)"
    and r2: "\<And>c t. bucket_of tbl c t =
            bucket_of (lookupTable (connections h3 this)) c t @ filter (\<lambda>e. key_of h3 p e = (c, t)) rest"
    by blast
  have t3: "lookupTable (connections h3 this) = tbl1"
    by (simp add: h3_def)
  have st: "with_table (logged h3 p (concat (map (\<lambda>e. [e, e]) rest))) this tbl =
            with_table (logged h p (concat (map (\<lambda>e. [e, e]) (evt # rest)))) this tbl"
    by (simp add: h3_def h2_def logged_with_table)
  have k3: "key_of h3 p = key_of h p"
    by (simp add: h3_def h2_def)
  have nonempty: "tbl \<noteq> []"
  proof (cases rest)
    case Nil
    with r1 t3 ne show ?thesis by simp
  next
    case (Cons a as)
    have "bucket_of tbl (fst (key_of h p a)) (snd (key_of h p a)) \<noteq> []"
      by (simp add: r2 k3 Cons)
    then show ?thesis by (auto simp: bucket_of_def)
  qed
  have buckets: "\<forall>c t. bucket_of tbl c t =
      bucket_of (lookupTable (connections h this)) c t @ filter (\<lambda>e. key_of h p e = (c, t)) (evt # rest)"
    by (auto simp: r2 t3 k3 b1 key_of_def)
  show ?case
    using step r st nonempty buckets by auto
qed

lemma allocated_logged [simp]: "allocated (logged h p es) = allocated h"
  by (simp add: logged_def)

lemma allocated_with_table [simp]: "allocated (with_table h r tbl) = allocated h"
  by (simp add: with_table_def upd_connection_def)

lemma groups_logged [simp]: "groups (logged h p es) = groups h"
  by (simp add: logged_def)

lemma groups_with_table [simp]: "groups (with_table h r tbl) = groups h"
  by (simp add: with_table_def upd_connection_def)

subsection \<open>The build and the query\<close>

lemma lookup_bucket_of:
  "lookup h this c t = (h, Inr (bucket_of (lookupTable (connections h this)) c t))"
  by (simp add: lookup_def bucket_of_def Map_has_def Map_get_def split: option.splits)

lemma bucket_of_Nil: "bucket_of [] c t = []"
  by (simp add: bucket_of_def)

lemma setupLookupTable_fresh:
  assumes "eventParser (connections h this) = Some p" and "lookupTable (connections h this) = []"
  shows "\<exists>tbl. setupLookupTable h this =
            (with_table (logged h p (concat (map (\<lambda>e. [e, e]) (events (connections h this))))) this tbl, Inr ()) \<and>
         (\<forall>c t. bucket_of tbl c t = filter (\<lambda>e. key_of h p e = (c, t)) (events (connections h this)))"
proof -
  from index_events_attached [OF assms(1), of "events (connections h this)"]
  obtain tbl where
    "index_events h this (events (connections h this)) =
       (with_table (logged h p (concat (map (\<lambda>e. [e, e]) (events (connections h this))))) this tbl, Inr ())"
    and "\<forall>c t. bucket_of tbl c t =
            bucket_of (lookupTable (connections h this)) c t @
            filter (\<lambda>e. key_of h p e = (c, t)) (events (connections h this))"
    by blast
  then show ?thesis
    using assms(2) by (auto simp: setupLookupTable_def Map_size_def bucket_of_Nil)
qed

lemma index_events_unattached:
  "eventParser (connections h this) = None \<Longrightarrow> fst (index_events h this evs) = h"
  by (cases evs) (simp_all add: parseEvent_unattached)

lemma setupLookupTable_built:
  "lookupTable (connections h this) \<noteq> [] \<Longrightarrow> setupLookupTable h this = (h, Inr ())"
  by (simp add: setupLookupTable_def Map_size_def)

lemma setupLookupTable_again:
  "fst (setupLookupTable (fst (setupLookupTable h this)) this) = fst (setupLookupTable h this)"
proof (cases "lookupTable (connections h this) = []")
  case False
  then show ?thesis by (simp add: setupLookupTable_built)
next
  case empty: True
  show ?thesis
  proof (cases "eventParser (connections h this)")
    case None
    then have "fst (setupLookupTable h this) = h"
      by (simp add: setupLookupTable_def index_events_unattached)
    then show ?thesis by simp
  next
    case (Some p)
    from index_events_attached [OF Some, of "events (connections h this)"] obtain tbl where
      r: "index_events h this (events (connections h this)) =
            (with_table (logged h p (concat (map (\<lambda>e. [e, e]) (events (connections h this))))) this tbl, Inr ())"
      and ne: "events (connections h this) \<noteq> [] \<longrightarrow> tbl \<noteq> []"
      by blast
    show ?thesis
    proof (cases "events (connections h this) = []")
      case True
      then have "fst (setupLookupTable h this) = h"
        by (simp add: setupLookupTable_def)
      then show ?thesis by simp
    next
      case False
      with ne have "tbl \<noteq> []" by simp
      moreover have "fst (setupLookupTable h this) =
          with_table (logged h p (concat (map (\<lambda>e. [e, e]) (events (connections h this))))) this tbl"
        using empty r by (simp add: setupLookupTable_def Map_size_def)
      ultimately show ?thesis
        by (simp add: setupLookupTable_built)
    qed
  qed
qed

lemma index_events_shape:
  "\<exists>p es tbl. fst (index_events h this evs) = with_table (logged h p es) this tbl"
proof (cases "eventParser (connections h this)")
  case None
  then have "fst (index_events h this evs) = with_table (logged h 0 []) this (lookupTable (connections h this))"
    by (simp add: index_events_unattached)
  then show ?thesis by blast
next
  case (Some p)
  from index_events_attached [OF Some, of evs] show ?thesis
    by (metis fst_conv)
qed

lemma setupLookupTable_shape:
  "\<exists>p es tbl. fst (setupLookupTable h this) = with_table (logged h p es) this tbl"
proof (cases "Map_size (lookupTable (connections h this)) \<noteq> 0")
  case True
  then have "fst (setupLookupTable h this) = with_table (logged h 0 []) this (lookupTable (connections h this))"
    by (simp add: setupLookupTable_def)
  then show ?thesis by blast
next
  case False
  then show ?thesis
    using index_events_shape [of h this "events (connections h this)"]
    by (simp add: setupLookupTable_def)
qed

subsection \<open>The JSON round trip\<close>

lemma is_json_defined: "is_json v \<Longrightarrow> v \<noteq> JUndefined"
  by auto

lemma is_json_copy: "is_json v \<Longrightarrow> json_copy v = v"
proof (induction v rule: json_copy.induct)
  case (1 xs)
  have "\<forall>x\<in>set xs. x \<noteq> JUndefined \<and> json_copy x = x"
  proof
    fix x assume x: "x \<in> set xs"
    with "1.prems" have j: "is_json x" by (simp add: list_all_iff)
    then have "x \<noteq> JUndefined" by (rule is_json_defined)
    with x j "1.IH" show "x \<noteq> JUndefined \<and> json_copy x = x" by simp
  qed
  then show ?case by (simp add: map_idI)
next
  case (2 ps)
  have *: "\<forall>p\<in>set ps. snd p \<noteq> JUndefined \<and> json_copy (snd p) = snd p"
  proof
    fix p assume p: "p \<in> set ps"
    with "2.prems" have j: "is_json (snd p)" by (simp add: list_all_iff)
    then have "snd p \<noteq> JUndefined" by (rule is_json_defined)
    with p j "2.IH" show "snd p \<noteq> JUndefined \<and> json_copy (snd p) = snd p" by simp
  qed
  then have "filter (\<lambda>p. snd p \<noteq> JUndefined) ps = ps" by (simp add: filter_id_conv)
  with * show ?case by (simp add: map_idI)
qed simp_all

lemma json_copy_event_id: "list_all is_json e \<Longrightarrow> json_copy_event e = e"
  using is_json_copy [of "JArray e"] by (simp add: json_copy_event_def)

lemma json_copy_events_id: "list_all (list_all is_json) evs \<Longrightarrow> json_copy_events evs = evs"
  by (simp add: json_copy_events_def list_all_iff json_copy_event_id map_idI)

subsection \<open>What clone and the constructor leave in the store\<close>

lemma clone_connections_other:
  "r \<noteq> allocated h \<Longrightarrow> connections (fst (clone h this)) r = connections h r"
  by (simp add: clone_def new_QlogConnection_def addConnection_def upd_connection_def Let_def
      split: option.splits)

lemma clone_allocated: "allocated (fst (clone h this)) = Suc (allocated h)"
  by (simp add: clone_def new_QlogConnection_def addConnection_def upd_connection_def Let_def
      split: option.splits)

lemma clone_parsers: "parsers (fst (clone h this)) = parsers h"
  by (simp add: clone_def new_QlogConnection_def addConnection_def upd_connection_def Let_def
      split: option.splits)

lemma clone_groups:
  "groups (fst (clone h this)) =
     (groups h)(parent (connections h this) := groups h (parent (connections h this)) @ [allocated h])"
  by (simp add: clone_def new_QlogConnection_def addConnection_def upd_connection_def Let_def
      split: option.splits)

lemma clone_result:
  "snd (clone h this) =
     (case vantagePoint (connections (fst (new_QlogConnection h (parent (connections h this)))) this) of
        None \<Rightarrow> Inl SyntaxError | Some vp \<Rightarrow> Inr (allocated h))"
  by (simp add: clone_def new_QlogConnection_def addConnection_def upd_connection_def Let_def
      split: option.splits)

lemma clone_output_table: "lookupTable (connections (fst (clone h this)) (allocated h)) = []"
  by (simp add: clone_def new_QlogConnection_def addConnection_def upd_connection_def Let_def
      split: option.splits)

lemma clone_output_events:
  "this \<noteq> allocated h \<Longrightarrow> vantagePoint (connections h this) = Some vp \<Longrightarrow>
     events (connections (fst (clone h this)) (allocated h)) = json_copy_events (events (connections h this))"
  by (simp add: clone_def new_QlogConnection_def addConnection_def upd_connection_def Let_def
      split: option.splits)

lemma clone_output_parser:
  "this \<noteq> allocated h \<Longrightarrow> vantagePoint (connections h this) = Some vp \<Longrightarrow>
     eventParser (connections (fst (clone h this)) (allocated h)) = eventParser (connections h this)"
  by (simp add: clone_def new_QlogConnection_def addConnection_def upd_connection_def Let_def
      split: option.splits)

lemma new_connections_other:
  "r \<noteq> allocated h \<Longrightarrow> connections (fst (new_QlogConnection h g)) r = connections h r"
  by (simp add: new_QlogConnection_def addConnection_def Let_def)

subsection \<open>What a call leaves untouched\<close>

lemma perform_allocated: "allocated h \<le> allocated (perform h c)"
proof (cases c)
  case (SetupLookupTable r)
  then show ?thesis using setupLookupTable_shape [of h r] by auto
qed (auto simp: clone_allocated new_QlogConnection_def addConnection_def Let_def setEventParser_def
      parser_init_def upd_connection_def parseEvent_def parser_load_def setEvents_def lookup_bucket_of
      split: option.splits)

lemma perform_load_fn: "load_fn (parsers (perform h c) p) = load_fn (parsers h p)"
proof (cases c)
  case (SetupLookupTable r)
  then show ?thesis using setupLookupTable_shape [of h r] by auto
qed (auto simp: clone_parsers new_QlogConnection_def addConnection_def Let_def setEventParser_def
      parser_init_def upd_connection_def parseEvent_def parser_load_def setEvents_def lookup_bucket_of
      split: option.splits)

lemma perform_eventParser:
  assumes "r < allocated h" and "\<not> attaches_parser r c"
  shows "eventParser (connections (perform h c) r) = eventParser (connections h r)"
proof (cases c)
  case (SetupLookupTable r')
  then show ?thesis using setupLookupTable_shape [of h r'] by auto
next
  case (Assign r' f)
  then show ?thesis by (cases f) (simp_all add: upd_connection_def)
qed (use assms in \<open>auto simp: clone_connections_other new_connections_other setEventParser_def
      parser_init_def upd_connection_def parseEvent_def parser_load_def setEvents_def lookup_bucket_of
      split: option.splits\<close>)

lemma perform_lookupTable:
  assumes "r < allocated h" and "lookupTable (connections h r) \<noteq> []"
  shows "lookupTable (connections (perform h c) r) = lookupTable (connections h r)"
proof (cases c)
  case (SetupLookupTable r')
  show ?thesis
  proof (cases "r' = r")
    case True
    with assms SetupLookupTable show ?thesis by (simp add: setupLookupTable_built)
  next
    case False
    with SetupLookupTable show ?thesis using setupLookupTable_shape [of h r'] by auto
  qed
next
  case (Assign r' f)
  then show ?thesis by (cases f) (simp_all add: upd_connection_def)
qed (use assms in \<open>auto simp: clone_connections_other new_connections_other setEventParser_def
      parser_init_def upd_connection_def parseEvent_def parser_load_def setEvents_def lookup_bucket_of
      split: option.splits\<close>)

lemma run_allocated: "allocated h \<le> allocated (run h cs)"
proof (induction cs arbitrary: h)
  case (Cons c cs)
  from perform_allocated [of h c] Cons [of "perform h c"] show ?case by simp
qed simp

lemma run_load_fn: "load_fn (parsers (run h cs) p) = load_fn (parsers h p)"
  by (induction cs arbitrary: h) (simp_all add: perform_load_fn)

lemma run_eventParser:
  "r < allocated h \<Longrightarrow> \<not> list_ex (attaches_parser r) cs \<Longrightarrow>
     eventParser (connections (run h cs) r) = eventParser (connections h r)"
proof (induction cs arbitrary: h)
  case (Cons c cs)
  from Cons.prems have "r < allocated (perform h c)"
    using perform_allocated [of h c] by simp
  with Cons show ?case by (simp add: perform_eventParser)
qed simp

lemma run_lookupTable:
  "r < allocated h \<Longrightarrow> lookupTable (connections h r) \<noteq> [] \<Longrightarrow>
     lookupTable (connections (run h cs) r) = lookupTable (connections h r)"
proof (induction cs arbitrary: h)
  case (Cons c cs)
  from Cons.prems have "r < allocated (perform h c)"
    using perform_allocated [of h c] by simp
  with Cons show ?case by (simp add: perform_lookupTable)
qed simp

subsection \<open>The concrete traces\<close>

lemma scenario_parser: "getEventParser scenario 0 = Some 0"
  by (simp add: scenario_def method_defs fixture_defs)

lemma scenario_table: "lookupTable (connections scenario 0) = []"
  by (simp add: scenario_def method_defs fixture_defs)

lemma scenario_events: "getEvents scenario 0 = [packet_sent, packet_received, frame_sent]"
  by (simp add: scenario_def method_defs fixture_defs)

lemma scenario_load: "load_fn (parsers scenario 0) = positional_load"
  by (simp add: scenario_def method_defs fixture_defs)

lemma scenario_load_calls: "load_calls (parsers scenario 0) = []"
  by (simp add: scenario_def method_defs fixture_defs)

lemma built_facts:
  "allocated built = 1"
  "vantagePoint (connections built 0) = Some [(''type'', JString ''client'')]"
  "getEvents built 0 = [packet_sent, packet_received, frame_sent]"
  "lookupTable (connections built 0) =
     [(''transport'', [(''packet_sent'', [packet_sent]), (''packet_received'', [packet_received])]),
      (''http'', [(''frame_sent'', [frame_sent])])]"
  "getEventParser built 0 = Some 0"
  "load_fn (parsers built 0) = positional_load"
  by (simp_all add: built_def method_defs fixture_defs)

lemma repeated_facts:
  "getEventParser repeated 0 = Some 0"
  "lookupTable (connections repeated 0) = []"
  "getEvents repeated 0 = [packet_sent, frame_sent, packet_sent_again]"
  "load_fn (parsers repeated 0) = positional_load"
  by (simp_all add: repeated_def method_defs fixture_defs)

lemma fresh_facts:
  "getEventParser fresh 0 = None"
  "allocated fresh = 1"
  "load_fn (parsers fresh 0) = positional_load"
  by (simp_all add: fresh_def method_defs fixture_defs)

section \<open>The claims\<close>

subsection \<open>C1: what a build puts into the index\<close>

text \<open>
  C1 (as amended). For every trace with an attached parser whose index is empty when
  \<^verbatim>\<open>setupLookupTable\<close> is called, the call returns normally, leaves the events as
  they are, and afterwards the bucket of every key pair holds exactly the events of the
  trace that the parser resolves to that pair, in the order of the event sequence: every
  event is in the bucket of its own category and name and in no other bucket.
\<close>

theorem setupLookupTable_buckets:
  assumes "getEventParser h this = Some p" and "lookupTable (connections h this) = []"
  shows "snd (setupLookupTable h this) = Inr () \<and>
         getEvents (fst (setupLookupTable h this)) this = getEvents h this \<and>
         (\<forall>c t. snd (lookup (fst (setupLookupTable h this)) this c t) =
            Inr (filter (\<lambda>e. category (load_fn (parsers h p) e) = c \<and>
                              name (load_fn (parsers h p) e) = t) (getEvents h this))) \<and>
         (\<forall>e \<in> set (getEvents h this). \<forall>c t.
            (\<exists>b. snd (lookup (fst (setupLookupTable h this)) this c t) = Inr b \<and> e \<in> set b) =
            (c = category (load_fn (parsers h p) e) \<and> t = name (load_fn (parsers h p) e)))"
proof -
  from assms(1) have att: "eventParser (connections h this) = Some p"
    by (simp add: getEventParser_def)
  from setupLookupTable_fresh [OF att assms(2)] obtain tbl where
    s: "setupLookupTable h this =
          (with_table (logged h p (concat (map (\<lambda>e. [e, e]) (events (connections h this))))) this tbl, Inr ())"
    and b: "\<And>c t. bucket_of tbl c t = filter (\<lambda>e. key_of h p e = (c, t)) (events (connections h this))"
    by blast
  have l: "\<And>c t. snd (lookup (fst (setupLookupTable h this)) this c t) =
            Inr (filter (\<lambda>e. category (load_fn (parsers h p) e) = c \<and>
                              name (load_fn (parsers h p) e) = t) (getEvents h this))"
    by (simp add: s lookup_bucket_of b getEvents_def key_of_def)
  have "snd (setupLookupTable h this) = Inr ()"
    by (simp add: s)
  moreover have "getEvents (fst (setupLookupTable h this)) this = getEvents h this"
    by (simp add: s getEvents_def)
  moreover have "\<forall>e \<in> set (getEvents h this). \<forall>c t.
            (\<exists>b. snd (lookup (fst (setupLookupTable h this)) this c t) = Inr b \<and> e \<in> set b) =
            (c = category (load_fn (parsers h p) e) \<and> t = name (load_fn (parsers h p) e))"
    by (auto simp: l)
  ultimately show ?thesis
    using l by blast
qed

text \<open>The two scenarios of the specification.\<close>

theorem setupLookupTable_buckets_witness:
  "getEventParser scenario 0 = Some 0 \<and> lookupTable (connections scenario 0) = [] \<and>
   snd (lookup (fst (setupLookupTable scenario 0)) 0 ''transport'' ''packet_sent'') = Inr [packet_sent] \<and>
   snd (lookup (fst (setupLookupTable scenario 0)) 0 ''transport'' ''packet_received'') = Inr [packet_received] \<and>
   snd (lookup (fst (setupLookupTable scenario 0)) 0 ''http'' ''frame_sent'') = Inr [frame_sent] \<and>
   snd (lookup (fst (setupLookupTable scenario 0)) 0 ''quic'' ''ack'') = Inr [] \<and>
   getEventParser repeated 0 = Some 0 \<and> lookupTable (connections repeated 0) = [] \<and>
   snd (lookup (fst (setupLookupTable repeated 0)) 0 ''transport'' ''packet_sent'') =
     Inr [packet_sent, packet_sent_again]"
  using setupLookupTable_buckets [OF scenario_parser scenario_table]
    setupLookupTable_buckets [OF repeated_facts(1) repeated_facts(2)]
  by (simp add: scenario_parser scenario_table scenario_events scenario_load repeated_facts fixture_defs)

text \<open>
  The claim as stated, for every trace with a parser, fails on a trace whose index was
  built before its events were replaced: the call returns at its guard, and the event
  of the trace is in no bucket while the replaced one still is.
\<close>

theorem setupLookupTable_stale_counterexample:
  "getEventParser stale 0 = Some 0 \<and> getEvents stale 0 = [frame_sent] \<and>
   category (load_fn (parsers stale 0) frame_sent) = ''http'' \<and>
   name (load_fn (parsers stale 0) frame_sent) = ''frame_sent'' \<and>
   snd (setupLookupTable stale 0) = Inr () \<and>
   snd (lookup (fst (setupLookupTable stale 0)) 0 ''http'' ''frame_sent'') = Inr [] \<and>
   snd (lookup (fst (setupLookupTable stale 0)) 0 ''transport'' ''packet_sent'') = Inr [packet_sent]"
  by (simp add: stale_def method_defs fixture_defs)

subsection \<open>C2: setEvents and the index\<close>

text \<open>
  C2 (as amended). For every trace, \<^verbatim>\<open>setEvents\<close> replaces the event sequence and
  leaves the index as it is: immediately after \<^verbatim>\<open>setEvents\<close> every lookup returns
  what it returned before the call.
\<close>

theorem setEvents_keeps_index:
  "getEvents (setEvents h this evs) this = evs \<and>
   lookupTable (connections (setEvents h this evs) this) = lookupTable (connections h this) \<and>
   snd (lookup (setEvents h this evs) this c t) = snd (lookup h this c t)"
  by (simp add: setEvents_def getEvents_def upd_connection_def lookup_bucket_of)

theorem setEvents_keeps_index_witness:
  "getEvents (setEvents built 0 [frame_sent]) 0 = [frame_sent] \<and>
   snd (lookup (setEvents built 0 [frame_sent]) 0 ''transport'' ''packet_received'') = Inr [packet_received]"
  using setEvents_keeps_index [of built 0 "[frame_sent]" "''transport''" "''packet_received''"]
  by (simp add: lookup_bucket_of bucket_of_def built_facts)

text \<open>
  The claim as stated fails: the index of a built trace is still built after
  \<^verbatim>\<open>setEvents\<close> with an empty sequence, and a lookup still returns the old event.
\<close>

theorem setEvents_clears_index_counterexample:
  "index_built built 0 \<and>
   snd (lookup built 0 ''transport'' ''packet_sent'') = Inr [packet_sent] \<and>
   getEvents (setEvents built 0 []) 0 = [] \<and>
   index_built (setEvents built 0 []) 0 \<and>
   snd (lookup (setEvents built 0 []) 0 ''transport'' ''packet_sent'') = Inr [packet_sent]"
  by (simp add: built_def index_built_def method_defs fixture_defs)

subsection \<open>C3: building twice\<close>

text \<open>
  C3. For every trace (with an attached parser or without one), a second
  \<^verbatim>\<open>setupLookupTable\<close> right after the first leaves the store, and so the index, as
  the first call left it; and a call on an index that has at least one category entry
  returns at once and changes nothing.
\<close>

theorem setupLookupTable_idempotent:
  "fst (setupLookupTable (fst (setupLookupTable h this)) this) = fst (setupLookupTable h this) \<and>
   lookupTable (connections (fst (setupLookupTable (fst (setupLookupTable h this)) this)) this) =
     lookupTable (connections (fst (setupLookupTable h this)) this) \<and>
   (Map_size (lookupTable (connections h this)) \<noteq> 0 \<longrightarrow> setupLookupTable h this = (h, Inr ()))"
  by (simp add: setupLookupTable_again) (simp add: setupLookupTable_def)

theorem setupLookupTable_idempotent_witness:
  "getEventParser scenario 0 = Some 0 \<and>
   Map_size (lookupTable (connections built 0)) \<noteq> 0 \<and> setupLookupTable built 0 = (built, Inr ()) \<and>
   fst (setupLookupTable (fst (setupLookupTable scenario 0)) 0) = fst (setupLookupTable scenario 0)"
  using setupLookupTable_idempotent [of built 0] setupLookupTable_idempotent [of scenario 0]
  by (simp add: built_facts Map_size_def scenario_parser)

subsection \<open>C4: lookup\<close>

text \<open>
  C4. For every trace and every pair of strings, \<^verbatim>\<open>lookup\<close> returns normally and
  leaves the store as it is. It returns the bucket when both keys are in the index and an
  empty sequence when the category or the type is absent; on an empty index it returns an
  empty sequence for every pair, and builds nothing.
\<close>

theorem lookup_total:
  "lookup h this c t = (h, Inr (bucket_of (lookupTable (connections h this)) c t)) \<and>
   (\<forall>d b. Map_get (lookupTable (connections h this)) c = Some d \<and> Map_get d t = Some b \<longrightarrow>
      lookup h this c t = (h, Inr b)) \<and>
   (Map_get (lookupTable (connections h this)) c = None \<longrightarrow> lookup h this c t = (h, Inr [])) \<and>
   (\<forall>d. Map_get (lookupTable (connections h this)) c = Some d \<and> Map_get d t = None \<longrightarrow>
      lookup h this c t = (h, Inr [])) \<and>
   (lookupTable (connections h this) = [] \<longrightarrow> lookup h this c t = (h, Inr []))"
  by (simp add: lookup_bucket_of) (auto simp: bucket_of_def Map_get_def)

theorem lookup_total_witness:
  "lookupTable (connections scenario 0) = [] \<and>
   getEvents scenario 0 = [packet_sent, packet_received, frame_sent] \<and>
   lookup scenario 0 ''transport'' ''packet_sent'' = (scenario, Inr []) \<and>
   lookup built 0 ''transport'' ''packet_sent'' = (built, Inr [packet_sent]) \<and>
   lookup built 0 ''transport'' ''ack'' = (built, Inr []) \<and>
   lookup built 0 ''quic'' ''ack'' = (built, Inr [])"
  using lookup_total [of scenario 0 "''transport''" "''packet_sent''"]
    lookup_total [of built 0 "''transport''" "''packet_sent''"]
    lookup_total [of built 0 "''transport''" "''ack''"]
    lookup_total [of built 0 "''quic''" "''ack''"]
  by (simp add: scenario_table scenario_events built_facts bucket_of_def)

subsection \<open>C5: the events of a clone\<close>

text \<open>
  C5 (as amended). For every trace whose \<^verbatim>\<open>vantagePoint\<close> has been assigned and
  whose events hold JSON values only (no \<^verbatim>\<open>undefined\<close>), \<^verbatim>\<open>clone\<close> returns a
  new trace whose events equal the original's at clone time, and the two event sequences
  are independent: \<^verbatim>\<open>setEvents\<close> on the clone leaves the events of the original
  unchanged, and \<^verbatim>\<open>setEvents\<close> on the original those of the clone.
\<close>

theorem clone_events:
  assumes "this < allocated h"
    and "vantagePoint (connections h this) = Some vp"
    and "list_all (list_all is_json) (getEvents h this)"
  shows "snd (clone h this) = Inr (allocated h) \<and> allocated h \<noteq> this \<and>
         getEvents (fst (clone h this)) (allocated h) = getEvents h this \<and>
         getEvents (fst (clone h this)) this = getEvents h this \<and>
         (\<forall>evs. getEvents (setEvents (fst (clone h this)) (allocated h) evs) this = getEvents h this \<and>
                getEvents (setEvents (fst (clone h this)) (allocated h) evs) (allocated h) = evs \<and>
                getEvents (setEvents (fst (clone h this)) this evs) (allocated h) = getEvents h this \<and>
                getEvents (setEvents (fst (clone h this)) this evs) this = evs)"
proof -
  from assms(1) have ne: "this \<noteq> allocated h" by simp
  have res: "snd (clone h this) = Inr (allocated h)"
    using ne assms(2) by (simp add: clone_result new_connections_other)
  have out: "getEvents (fst (clone h this)) (allocated h) = getEvents h this"
    using clone_output_events [OF ne assms(2)] assms(3)
    by (simp add: getEvents_def json_copy_events_id)
  have orig: "getEvents (fst (clone h this)) this = getEvents h this"
    using ne by (simp add: getEvents_def clone_connections_other)
  show ?thesis
    using ne res out orig by (simp add: setEvents_def upd_connection_def getEvents_def)
qed

theorem clone_events_witness:
  "0 < allocated built \<and>
   vantagePoint (connections built 0) = Some [(''type'', JString ''client'')] \<and>
   list_all (list_all is_json) (getEvents built 0) \<and>
   snd (clone built 0) = Inr 1 \<and>
   getEvents (fst (clone built 0)) 1 = [packet_sent, packet_received, frame_sent] \<and>
   getEvents (setEvents (fst (clone built 0)) 1 []) 0 = [packet_sent, packet_received, frame_sent]"
proof -
  have a: "0 < allocated built" by (simp add: built_facts)
  have j: "list_all (list_all is_json) (getEvents built 0)"
    by (simp add: built_facts packet_sent_def packet_received_def frame_sent_def)
  from clone_events [OF a built_facts(2) j] a j show ?thesis
    by (simp add: built_facts)
qed

text \<open>
  The claim as stated, for every trace, fails twice. On a trace as the constructor
  leaves it \<^verbatim>\<open>clone\<close> returns nothing: the round trip of the unassigned
  \<^verbatim>\<open>vantagePoint\<close> throws. And an \<^verbatim>\<open>undefined\<close> field of an event is
  \<^verbatim>\<open>null\<close> in the clone.
\<close>

theorem clone_events_counterexample:
  "snd (clone fresh 0) = Inl SyntaxError \<and>
   snd (clone holey 0) = Inr 1 \<and>
   getEvents holey 0 = [[JNumber 0, JString ''transport'', JString ''packet_sent'', JUndefined]] \<and>
   getEvents (fst (clone holey 0)) 1 = [[JNumber 0, JString ''transport'', JString ''packet_sent'', JNull]]"
  by (simp add: fresh_def holey_def method_defs fixture_defs clone_defs)

subsection \<open>C6: the index of a clone\<close>

text \<open>
  C6. For every trace, the trace that \<^verbatim>\<open>clone\<close> returns starts with an empty index:
  a lookup on it right after the clone returns an empty sequence for every pair of keys,
  whatever the index of the original holds. And \<^verbatim>\<open>clone\<close> does return a trace
  whenever the \<^verbatim>\<open>vantagePoint\<close> of the original has been assigned.
\<close>

theorem clone_index_empty:
  "(\<forall>h' output. clone h this = (h', Inr output) \<longrightarrow> lookup h' output c t = (h', Inr [])) \<and>
   (this < allocated h \<and> vantagePoint (connections h this) \<noteq> None \<longrightarrow>
      clone h this = (fst (clone h this), Inr (allocated h)))"
proof -
  have "lookup h' r' c t = (h', Inr [])" if "clone h this = (h', Inr r')" for h' r'
  proof -
    from that have h': "h' = fst (clone h this)" and r: "snd (clone h this) = Inr r'"
      by simp_all
    from r have "r' = allocated h"
      by (simp add: clone_result split: option.splits)
    then show ?thesis
      by (simp add: h' lookup_bucket_of clone_output_table bucket_of_Nil)
  qed
  moreover have "clone h this = (fst (clone h this), Inr (allocated h))"
    if "this < allocated h \<and> vantagePoint (connections h this) \<noteq> None"
  proof -
    from that have "snd (clone h this) = Inr (allocated h)"
      by (auto simp: clone_result new_connections_other)
    then show ?thesis by (simp add: prod_eq_iff)
  qed
  ultimately show ?thesis by blast
qed

theorem clone_index_empty_witness:
  "clone built 0 = (fst (clone built 0), Inr 1) \<and>
   index_built built 0 \<and>
   snd (lookup built 0 ''transport'' ''packet_sent'') = Inr [packet_sent] \<and>
   lookup (fst (clone built 0)) 1 ''transport'' ''packet_sent'' = (fst (clone built 0), Inr [])"
proof -
  have "0 < allocated built \<and> vantagePoint (connections built 0) \<noteq> None"
    by (simp add: built_facts)
  with clone_index_empty [of built 0 "''transport''" "''packet_sent''"]
  have c: "clone built 0 = (fst (clone built 0), Inr 1)"
    by (simp add: built_facts)
  with clone_index_empty [of built 0 "''transport''" "''packet_sent''"]
  have "lookup (fst (clone built 0)) 1 ''transport'' ''packet_sent'' = (fst (clone built 0), Inr [])"
    by blast
  with c show ?thesis
    by (simp add: index_built_def lookup_bucket_of bucket_of_def built_facts)
qed

subsection \<open>C7: a built index stays built\<close>

text \<open>
  C7. Once the index of a trace is built (not empty), no sequence of calls on the store,
  on that trace or on any other one (\<^verbatim>\<open>setEvents\<close>, \<^verbatim>\<open>setEventParser\<close>,
  \<^verbatim>\<open>parseEvent\<close>, \<^verbatim>\<open>setupLookupTable\<close>, \<^verbatim>\<open>lookup\<close>, the getters,
  assignments to the public fields, \<^verbatim>\<open>clone\<close> and the constructor), returns it to
  the empty state: the index stays exactly what it was. Only a trace made by the
  constructor, as a clone is, has an empty index again.
\<close>

theorem built_is_terminal:
  assumes "index_built h r" and "r < allocated h"
  shows "index_built (run h cs) r \<and>
         lookupTable (connections (run h cs) r) = lookupTable (connections h r) \<and>
         \<not> index_built (fst (new_QlogConnection (run h cs) g)) (snd (new_QlogConnection (run h cs) g))"
  using assms run_lookupTable [of r h cs]
  by (simp add: index_built_def) (simp add: new_QlogConnection_def addConnection_def Let_def)

theorem built_is_terminal_witness:
  "index_built built 0 \<and> 0 < allocated built \<and>
   index_built (run built [SetEvents 0 [], SetEventParser 0 1, ParseEvent 0 frame_sent,
                           SetupLookupTable 0, Lookup 0 ''http'' ''frame_sent'', Clone 0, New 0]) 0"
proof -
  have b: "index_built built 0" by (simp add: index_built_def built_facts)
  have a: "0 < allocated built" by (simp add: built_facts)
  from built_is_terminal [OF b a] a b show ?thesis by blast
qed

subsection \<open>C8: parseEvent and the attached parser\<close>

text \<open>
  C8 (as amended). For every trace with no parser attached, \<^verbatim>\<open>parseEvent\<close> fails
  with a \<^verbatim>\<open>TypeError\<close> on any raw event and changes nothing; a trace made by the
  constructor has no parser attached until \<^verbatim>\<open>setEventParser\<close> is called on it,
  whatever else is called in between. For every trace on which \<^verbatim>\<open>setEventParser\<close>
  has been called, \<^verbatim>\<open>parseEvent\<close> returns exactly the result of \<^verbatim>\<open>load\<close> of
  the parser attached last, applied to the given raw event. A clone starts with the
  parser of the trace it was cloned from: whenever \<^verbatim>\<open>clone\<close> returns, the new
  trace has the parser reference of the original, and \<^verbatim>\<open>parseEvent\<close> on it
  returns what \<^verbatim>\<open>parseEvent\<close> on the original returns.
\<close>

theorem parseEvent_parser:
  "(getEventParser h r = None \<longrightarrow> parseEvent h r evt = (h, Inl TypeError)) \<and>
   (\<not> list_ex (attaches_parser (allocated h)) cs \<longrightarrow>
      snd (parseEvent (run (fst (new_QlogConnection h g)) cs) (allocated h) evt) = Inl TypeError) \<and>
   (r < allocated h \<and> \<not> list_ex (attaches_parser r) cs \<longrightarrow>
      snd (parseEvent (run (setEventParser h r p) cs) r evt) = Inr (load_fn (parsers h p) evt)) \<and>
   (r < allocated h \<and> vantagePoint (connections h r) \<noteq> None \<longrightarrow>
      snd (clone h r) = Inr (allocated h) \<and>
      getEventParser (fst (clone h r)) (allocated h) = getEventParser h r \<and>
      snd (parseEvent (fst (clone h r)) (allocated h) evt) = snd (parseEvent h r evt))"
proof -
  have 1: "getEventParser h r = None \<longrightarrow> parseEvent h r evt = (h, Inl TypeError)"
    by (simp add: getEventParser_def parseEvent_unattached)
  have 2: "snd (parseEvent (run (fst (new_QlogConnection h g)) cs) (allocated h) evt) = Inl TypeError"
    if "\<not> list_ex (attaches_parser (allocated h)) cs"
  proof -
    have "allocated h < allocated (fst (new_QlogConnection h g))"
      by (simp add: new_QlogConnection_def addConnection_def Let_def)
    from run_eventParser [OF this that]
    have "eventParser (connections (run (fst (new_QlogConnection h g)) cs) (allocated h)) = None"
      by (simp add: new_QlogConnection_def addConnection_def Let_def)
    then show ?thesis by (simp add: parseEvent_unattached)
  qed
  have 3: "snd (parseEvent (run (setEventParser h r p) cs) r evt) = Inr (load_fn (parsers h p) evt)"
    if "r < allocated h" and "\<not> list_ex (attaches_parser r) cs"
  proof -
    have "r < allocated (setEventParser h r p)"
      using that(1) by (simp add: setEventParser_def parser_init_def upd_connection_def)
    from run_eventParser [OF this that(2)]
    have "eventParser (connections (run (setEventParser h r p) cs) r) = Some p"
      by (simp add: setEventParser_def parser_init_def upd_connection_def)
    moreover have "load_fn (parsers (run (setEventParser h r p) cs) p) = load_fn (parsers h p)"
      by (simp add: run_load_fn) (simp add: setEventParser_def parser_init_def upd_connection_def)
    ultimately show ?thesis by (simp add: parseEvent_attached)
  qed
  have 4: "snd (clone h r) = Inr (allocated h) \<and>
      getEventParser (fst (clone h r)) (allocated h) = getEventParser h r \<and>
      snd (parseEvent (fst (clone h r)) (allocated h) evt) = snd (parseEvent h r evt)"
    if "r < allocated h" and "vantagePoint (connections h r) \<noteq> None"
  proof -
    from that(1) have ne: "r \<noteq> allocated h" by simp
    from that(2) obtain vp where vp: "vantagePoint (connections h r) = Some vp" by auto
    have res: "snd (clone h r) = Inr (allocated h)"
      using ne vp by (simp add: clone_result new_connections_other)
    have par: "eventParser (connections (fst (clone h r)) (allocated h)) = eventParser (connections h r)"
      by (rule clone_output_parser [OF ne vp])
    have "snd (parseEvent (fst (clone h r)) (allocated h) evt) = snd (parseEvent h r evt)"
      by (simp add: parseEvent_def parser_load_def par clone_parsers split: option.splits)
    with res par show ?thesis by (simp add: getEventParser_def)
  qed
  from 1 2 3 4 show ?thesis by blast
qed

theorem parseEvent_parser_witness:
  "getEventParser fresh 0 = None \<and> parseEvent fresh 0 packet_sent = (fresh, Inl TypeError) \<and>
   \<not> list_ex (attaches_parser (allocated store0)) [SetEvents 0 [packet_sent], SetupLookupTable 0] \<and>
   snd (parseEvent (run (fst (new_QlogConnection store0 0)) [SetEvents 0 [packet_sent], SetupLookupTable 0])
          (allocated store0) packet_sent) = Inl TypeError \<and>
   0 < allocated fresh \<and> \<not> list_ex (attaches_parser 0) [SetEvents 0 [packet_sent], SetupLookupTable 0] \<and>
   snd (parseEvent (run (setEventParser fresh 0 0) [SetEvents 0 [packet_sent], SetupLookupTable 0]) 0 packet_sent) =
     Inr (positional_load packet_sent) \<and>
   0 < allocated built \<and> vantagePoint (connections built 0) \<noteq> None \<and>
   snd (clone built 0) = Inr 1 \<and>
   getEventParser (fst (clone built 0)) 1 = Some 0 \<and>
   snd (parseEvent (fst (clone built 0)) 1 packet_sent) = Inr (positional_load packet_sent)"
proof -
  have s: "allocated store0 = 0" by (simp add: store0_def)
  have b: "snd (parseEvent built 0 packet_sent) = Inr (positional_load packet_sent)"
    using built_facts(5) by (simp add: getEventParser_def parseEvent_attached built_facts)
  from parseEvent_parser [of fresh 0 packet_sent "[SetEvents 0 [packet_sent], SetupLookupTable 0]" 0 0]
    parseEvent_parser [of store0 0 packet_sent "[SetEvents 0 [packet_sent], SetupLookupTable 0]" 0 0]
    parseEvent_parser [of built 0 packet_sent "[]" 0 0]
  show ?thesis
    by (simp add: fresh_facts s built_facts b)
qed

text \<open>
  The claim as stated fails on a clone: \<^verbatim>\<open>setEventParser\<close> has never been called
  on trace 1, the parser was initialised for trace 0 only, and \<^verbatim>\<open>parseEvent\<close> on
  trace 1 returns a parsed view, since \<^verbatim>\<open>clone\<close> copies the parser reference.
\<close>

theorem parseEvent_clone_counterexample:
  "\<not> list_ex (attaches_parser 1) clone_calls \<and>
   getEventParser (run store0 clone_calls) 1 = Some 0 \<and>
   init_calls (parsers (run store0 clone_calls) 0) = [0] \<and>
   snd (parseEvent (run store0 clone_calls) 1 packet_sent) = Inr (positional_load packet_sent)"
  by (simp add: clone_calls_def method_defs fixture_defs clone_defs)

subsection \<open>C9: how often a build calls the parser\<close>

text \<open>
  C9 (as amended). A build on a trace with \<open>n\<close> events, starting from an empty index,
  calls \<^verbatim>\<open>load\<close> of the attached parser exactly twice per event, once for the
  category and once for the name, in the order of the events: \<open>2 * n\<close> calls in all,
  and no call to any other parser.
\<close>

theorem setupLookupTable_load_calls:
  assumes "getEventParser h this = Some p" and "lookupTable (connections h this) = []"
  shows "load_calls (parsers (fst (setupLookupTable h this)) p) =
           load_calls (parsers h p) @ concat (map (\<lambda>e. [e, e]) (getEvents h this)) \<and>
         length (load_calls (parsers (fst (setupLookupTable h this)) p)) =
           length (load_calls (parsers h p)) + 2 * length (getEvents h this) \<and>
         (\<forall>q. q \<noteq> p \<longrightarrow> parsers (fst (setupLookupTable h this)) q = parsers h q)"
proof -
  from assms(1) have att: "eventParser (connections h this) = Some p"
    by (simp add: getEventParser_def)
  from setupLookupTable_fresh [OF att assms(2)] obtain tbl where
    s: "setupLookupTable h this =
          (with_table (logged h p (concat (map (\<lambda>e. [e, e]) (events (connections h this))))) this tbl, Inr ())"
    by blast
  have len: "length (concat (map (\<lambda>e. [e, e]) es)) = 2 * length es" for es :: "raw_event list"
    by (induction es) simp_all
  have calls: "load_calls (parsers (fst (setupLookupTable h this)) p) =
           load_calls (parsers h p) @ concat (map (\<lambda>e. [e, e]) (getEvents h this))"
    by (simp add: s getEvents_def logged_def)
  have "length (load_calls (parsers (fst (setupLookupTable h this)) p)) =
           length (load_calls (parsers h p)) + 2 * length (getEvents h this)"
    unfolding calls length_append len ..
  moreover have "\<forall>q. q \<noteq> p \<longrightarrow> parsers (fst (setupLookupTable h this)) q = parsers h q"
    by (simp add: s logged_def)
  ultimately show ?thesis
    using calls by blast
qed

theorem setupLookupTable_load_calls_witness:
  "getEventParser scenario 0 = Some 0 \<and> lookupTable (connections scenario 0) = [] \<and>
   load_calls (parsers (fst (setupLookupTable scenario 0)) 0) =
     [packet_sent, packet_sent, packet_received, packet_received, frame_sent, frame_sent] \<and>
   parsers (fst (setupLookupTable scenario 0)) 1 = parsers scenario 1"
  using setupLookupTable_load_calls [OF scenario_parser scenario_table]
  by (simp add: scenario_parser scenario_table scenario_events scenario_load_calls)

text \<open>
  The claim as stated fails: the build of the three events of the scenario, from an
  empty index and a parser that had received no call, leaves six calls in its log.
\<close>

theorem load_once_per_event_counterexample:
  "getEventParser scenario 0 = Some 0 \<and> lookupTable (connections scenario 0) = [] \<and>
   length (getEvents scenario 0) = 3 \<and>
   length (load_calls (parsers scenario 0)) = 0 \<and>
   length (load_calls (parsers (fst (setupLookupTable scenario 0)) 0)) = 6"
  by (simp add: scenario_def method_defs fixture_defs)

subsection \<open>C10: a clone is registered with the parent group\<close>

text \<open>
  C10. \<^verbatim>\<open>clone\<close> constructs the new trace under the parent of the original, so after
  the call the connection list of that group is the list it was with one entry appended,
  the address of the new trace, and every other group is as it was. That address is what
  \<^verbatim>\<open>clone\<close> returns when it returns.
\<close>

theorem clone_registers_with_parent:
  "groups (fst (clone h this)) =
     (groups h)(parent (connections h this) := groups h (parent (connections h this)) @ [allocated h]) \<and>
   length (groups (fst (clone h this)) (parent (connections h this))) =
     Suc (length (groups h (parent (connections h this)))) \<and>
   (snd (clone h this) = Inr (allocated h) \<or> snd (clone h this) = Inl SyntaxError)"
  by (simp add: clone_groups clone_result split: option.splits)

theorem clone_registers_with_parent_witness:
  "groups built 0 = [0] \<and> groups (fst (clone built 0)) 0 = [0, 1] \<and> snd (clone built 0) = Inr 1"
  using clone_registers_with_parent [of built 0]
  by (simp add: built_def method_defs fixture_defs clone_defs)

end
